theory Spec2Isabelle
  imports Main
begin

section \<open>The etcd configuration driver of the profile service\<close>

text \<open>
  A shallow embedding of \<^verbatim>\<open>src/profile-service/src/drivers/etcd.driver.ts\<close> (class
  \<^verbatim>\<open>EtcdDriver\<close>). The driver object, the process environment \<^verbatim>\<open>process.env\<close>, the
  key-value store behind the etcd client and the console are the fields of one record
  that every method takes and returns. A promise that rejects, or a \<^verbatim>\<open>throw\<close>, is the
  first component \<open>Some e\<close> of a method's result.
\<close>

subsection \<open>JavaScript values\<close>

text \<open>
  The values that flow through the fallback expression
  \<^verbatim>\<open>etcdVal || process.env[propertyName] || propertySetting?.defaultValue || strDefaultVal\<close>:
  strings, \<^verbatim>\<open>null\<close> (a key that etcd does not hold) and \<^verbatim>\<open>undefined\<close>.
\<close>

datatype jsval = Undefined | Null | Str string

fun truthy :: "jsval \<Rightarrow> bool" where
  "truthy (Str s) = (s \<noteq> [])"
| "truthy Undefined = False"
| "truthy Null = False"

text \<open>The operator \<^verbatim>\<open>a || b\<close>: the left operand when it is truthy, the right one otherwise.\<close>

definition js_or :: "jsval \<Rightarrow> jsval \<Rightarrow> jsval" where
  "js_or a b = (if truthy a then a else b)"

text \<open>
  \<^verbatim>\<open>String(v)\<close>, the conversion Node.js applies to every value assigned to a property of
  \<^verbatim>\<open>process.env\<close>.
\<close>

fun js_String :: "jsval \<Rightarrow> string" where
  "js_String Undefined = ''undefined''"
| "js_String Null = ''null''"
| "js_String (Str s) = s"

text \<open>Reading a property of \<^verbatim>\<open>process.env\<close>, and the result of \<^verbatim>\<open>client.get(key).string()\<close>.\<close>

definition env_read :: "string option \<Rightarrow> jsval" where
  "env_read x = (case x of None \<Rightarrow> Undefined | Some v \<Rightarrow> Str v)"

definition get_string :: "string option \<Rightarrow> jsval" where
  "get_string x = (case x of None \<Rightarrow> Null | Some v \<Rightarrow> Str v)"

text \<open>\<^verbatim>\<open>keyName.split('/')\<close>: one more segment than there are separators.\<close>

fun split_on :: "char \<Rightarrow> string \<Rightarrow> string list" where
  "split_on c [] = [[]]"
| "split_on c (x # xs) =
     (let r = split_on c xs in if x = c then [] # r else (x # hd r) # tl r)"

subsection \<open>Configuration types\<close>

record IETCDPropertyDefenition =
  etcdPath :: "string option"
  defaultValue :: "string option"

text \<open>An entry of \<^verbatim>\<open>envParams\<close>: \<^verbatim>\<open>IETCDPropertyDefenition | string\<close>.\<close>

datatype manifest_value = Literal string | Definition IETCDPropertyDefenition

text \<open>
  The flags of \<^verbatim>\<open>IETCDDriverConfigs\<close> are only read in conditions, where \<^verbatim>\<open>undefined\<close> and
  \<^verbatim>\<open>false\<close> behave alike; \<open>dirname\<close> is a string or \<^verbatim>\<open>undefined\<close>.
\<close>

record IETCDDriverConfigs =
  dirname :: "string option"
  genKeys :: bool
  overrideSysObj :: bool
  watchKeys :: bool
  overrideNotInScope :: bool
  genEnvDirectories :: bool

text \<open>
  The object the caller passes. An object spread copies an own property even when its
  value is \<^verbatim>\<open>undefined\<close>, so for \<open>dirname\<close> the model tells a property that is not there
  (\<open>Absent\<close>) from one that is there (\<open>Present None\<close> is \<^verbatim>\<open>dirname: undefined\<close>).
\<close>

datatype 'a property = Absent | Present 'a

record custom_driverConfigs =
  c_dirname :: "string option property"
  c_genKeys :: bool
  c_overrideSysObj :: bool
  c_watchKeys :: bool
  c_overrideNotInScope :: bool
  c_genEnvDirectories :: bool

text \<open>\<^verbatim>\<open>envParams\<close> as the list of its entries in the order of \<^verbatim>\<open>Object.keys\<close>.\<close>

record custom_configs =
  c_envParams :: "(string \<times> manifest_value) list"
  c_driverConfigs :: "custom_driverConfigs option"

record IETCDConfigurations =
  cfgEnvParams :: "(string \<times> manifest_value) list"
  driverConfigs :: IETCDDriverConfigs

subsection \<open>State\<close>

datatype exn = Thrown string | TypeError | RemoteError

datatype log =
    LogClientCreated
  | LogInitializeEx exn
  | LogUpdateNewKey
  | LogUpdating string string
  | LogDeleting string
  | LogProcessEnv string string
  | LogOutOfScope

text \<open>
  \<open>client\<close> and \<open>etcdWatcher\<close> say whether the fields \<^verbatim>\<open>client\<close> and \<^verbatim>\<open>_etcdWatcher\<close> are set;
  \<open>defaultDirname\<close> is \<^verbatim>\<open>defaultConfigs.driverConfigs.dirname\<close>, the value of
  \<^verbatim>\<open>process.env.ETCD_SERVICE_NAME\<close> when the driver was constructed. \<open>env\<close> is
  \<^verbatim>\<open>process.env\<close>. \<open>kvs\<close> is the content of the etcd server; \<open>get_rejects\<close> and
  \<open>put_rejects\<close> are the keys for which the promise of a get or put rejects.
  \<open>put_calls\<close> lists every \<^verbatim>\<open>client.put(key).value(v)\<close> the driver made, \<open>watchers\<close> the
  watchers that are subscribed, as pairs of key and property name.
\<close>

record state =
  client :: bool
  proccesedConfigurations :: "IETCDConfigurations option"
  etcdWatcher :: bool
  envParams :: "(string \<rightharpoonup> jsval) option"
  defaultDirname :: "string option"
  env :: "string \<rightharpoonup> string"
  kvs :: "string \<rightharpoonup> string"
  get_rejects :: "string \<Rightarrow> bool"
  put_rejects :: "string \<Rightarrow> bool"
  put_calls :: "(string \<times> string option) list"
  watchers :: "(string \<times> string) list"
  console :: "log list"

text \<open>How a call of \<^verbatim>\<open>initialize\<close> ends for its caller.\<close>

datatype outcome = Resolved | Rejected exn

definition say :: "log \<Rightarrow> state \<Rightarrow> state" where
  "say l s = s\<lparr>console := console s @ [l]\<rparr>"

text \<open>The entry of \<^verbatim>\<open>this.envParams\<close> for a property name (absent while the field is \<^verbatim>\<open>null\<close>).\<close>

definition resolved :: "state \<Rightarrow> string \<Rightarrow> jsval option" where
  "resolved s p = (case envParams s of None \<Rightarrow> None | Some m \<Rightarrow> m p)"

subsection \<open>Methods\<close>

definition createClient :: "state \<Rightarrow> state" where
  "createClient s = (if \<not> client s then say LogClientCreated (s\<lparr>client := True\<rparr>) else s)"

definition overrideDefaultConfigs :: "state \<Rightarrow> custom_configs \<Rightarrow> IETCDConfigurations" where
  "overrideDefaultConfigs s customConfigs =
     \<lparr>cfgEnvParams = c_envParams customConfigs,
      driverConfigs =
        (case c_driverConfigs customConfigs of
           None \<Rightarrow>
             \<lparr>dirname = defaultDirname s, genKeys = False, overrideSysObj = False,
              watchKeys = False, overrideNotInScope = False, genEnvDirectories = False\<rparr>
         | Some d \<Rightarrow>
             \<lparr>dirname = (case c_dirname d of Absent \<Rightarrow> defaultDirname s | Present x \<Rightarrow> x),
              genKeys = c_genKeys d, overrideSysObj = c_overrideSysObj d,
              watchKeys = c_watchKeys d, overrideNotInScope = c_overrideNotInScope d,
              genEnvDirectories = c_genEnvDirectories d\<rparr>)\<rparr>"

definition getPropertySetting :: "IETCDConfigurations \<Rightarrow> string \<Rightarrow> IETCDPropertyDefenition option" where
  "getPropertySetting cfg propertyName =
     (case map_of (cfgEnvParams cfg) propertyName of
        Some (Definition d) \<Rightarrow> Some d
      | _ \<Rightarrow> None)"

definition updateEnv :: "string \<Rightarrow> jsval \<Rightarrow> state \<Rightarrow> exn option \<times> state" where
  "updateEnv propertyName val s =
     (case proccesedConfigurations s of
        None \<Rightarrow> (Some TypeError, s)
      | Some cfg \<Rightarrow>
          (let s1 = (if overrideSysObj (driverConfigs cfg)
                     then (say LogUpdateNewKey s)\<lparr>env := (env s)(propertyName \<mapsto> js_String val)\<rparr>
                     else s)
           in case envParams s1 of
                None \<Rightarrow> (Some TypeError, s1)
              | Some m \<Rightarrow> (None, s1\<lparr>envParams := Some (m(propertyName \<mapsto> val))\<rparr>)))"

text \<open>\<^verbatim>\<open>getEnvironemntDir\<close> reads \<^verbatim>\<open>process.env.NODE_ENV\<close> at every call.\<close>

definition getEnvironemntDir :: "IETCDConfigurations \<Rightarrow> state \<Rightarrow> string" where
  "getEnvironemntDir cfg s =
     (if genEnvDirectories (driverConfigs cfg) \<and> truthy (env_read (env s ''NODE_ENV''))
      then js_String (env_read (env s ''NODE_ENV'')) @ ''/''
      else '''')"

definition generatedEtcdPath :: "IETCDConfigurations \<Rightarrow> state \<Rightarrow> string \<Rightarrow> string" where
  "generatedEtcdPath cfg s propertyName =
     ''/'' @ js_String (env_read (dirname (driverConfigs cfg))) @ ''/''
       @ getEnvironemntDir cfg s @ propertyName"

definition etcdEntryName :: "IETCDConfigurations \<Rightarrow> state \<Rightarrow> string \<Rightarrow> string" where
  "etcdEntryName cfg s propertyName =
     (case getPropertySetting cfg propertyName of
        None \<Rightarrow> generatedEtcdPath cfg s propertyName
      | Some d \<Rightarrow>
          js_String (js_or (env_read (etcdPath d)) (Str (generatedEtcdPath cfg s propertyName))))"

definition isInScope :: "string \<Rightarrow> bool" where
  "isInScope keyName =
     (let splittedKey = split_on CHR ''/'' keyName in
      if length splittedKey \<ge> 3 then
        (if length splittedKey = 3 \<and> last splittedKey \<noteq> '''' then True
         else length splittedKey > 3)
      else False)"

text \<open>
  \<^verbatim>\<open>strDefaultVal\<close>: the manifest value itself is compared with the string
  \<^verbatim>\<open>'[object Object]'\<close> by \<^verbatim>\<open>!==\<close>, which an object never equals; the value is then converted
  by \<^verbatim>\<open>toString()\<close>, which gives \<^verbatim>\<open>'[object Object]'\<close> for an object.
\<close>

definition strDefaultVal :: "manifest_value option \<Rightarrow> jsval" where
  "strDefaultVal v =
     (case v of
        None \<Rightarrow> Undefined
      | Some (Literal x) \<Rightarrow> (if x \<noteq> ''[object Object]'' then Str x else Undefined)
      | Some (Definition d) \<Rightarrow> Str ''[object Object]'')"

text \<open>\<^verbatim>\<open>propertySetting?.defaultValue\<close>\<close>

definition settingDefault :: "IETCDPropertyDefenition option \<Rightarrow> jsval" where
  "settingDefault ps = (case ps of None \<Rightarrow> Undefined | Some d \<Rightarrow> env_read (defaultValue d))"

text \<open>The fallback expression of lines 176 and 181, as JavaScript groups it.\<close>

definition fallback :: "jsval \<Rightarrow> jsval \<Rightarrow> jsval \<Rightarrow> jsval \<Rightarrow> jsval" where
  "fallback etcdVal envVal dflt strDflt = js_or (js_or (js_or etcdVal envVal) dflt) strDflt"

text \<open>
  \<^verbatim>\<open>watchForChanges\<close> is called without \<^verbatim>\<open>await\<close>: when there is no watch builder its
  promise rejects unobserved and nothing is subscribed.
\<close>

definition watchForChanges :: "string \<Rightarrow> string \<Rightarrow> state \<Rightarrow> state" where
  "watchForChanges key propertyName s =
     (if \<not> etcdWatcher s then s else s\<lparr>watchers := watchers s @ [(key, propertyName)]\<rparr>)"

text \<open>
  \<^verbatim>\<open>await this.client.put(key).value(v)\<close>. The call is recorded first. The client converts
  the value with \<^verbatim>\<open>Buffer.from\<close>, which throws for \<^verbatim>\<open>undefined\<close>; a request that is sent
  may reject; otherwise the server stores the value.
\<close>

definition client_put :: "string \<Rightarrow> string option \<Rightarrow> state \<Rightarrow> exn option \<times> state" where
  "client_put key v s =
     (let s1 = s\<lparr>put_calls := put_calls s @ [(key, v)]\<rparr> in
      case v of
        None \<Rightarrow> (Some TypeError, s1)
      | Some x \<Rightarrow>
          (if put_rejects s key then (Some RemoteError, s1)
           else (None, s1\<lparr>kvs := (kvs s)(key \<mapsto> x)\<rparr>)))"

text \<open>The body of the loop of \<^verbatim>\<open>initializeProcess\<close> for one property name (lines 165 to 194).\<close>

definition processProperty :: "IETCDConfigurations \<Rightarrow> string \<Rightarrow> state \<Rightarrow> exn option \<times> state" where
  "processProperty cfg propertyName s =
     (let propertySetting = getPropertySetting cfg propertyName;
          key = etcdEntryName cfg s propertyName
      in if get_rejects s key then (Some RemoteError, s)
         else
          (let etcdVal = get_string (kvs s key);
               strDflt = strDefaultVal (map_of (cfgEnvParams cfg) propertyName);
               dflt = settingDefault propertySetting;
               s1 = (if overrideSysObj (driverConfigs cfg)
                     then (let v = js_String (fallback etcdVal (env_read (env s propertyName)) dflt strDflt)
                           in say (LogProcessEnv propertyName v) (s\<lparr>env := (env s)(propertyName \<mapsto> v)\<rparr>))
                     else s);
               m = (case envParams s1 of None \<Rightarrow> Map.empty | Some m \<Rightarrow> m);
               s2 = s1\<lparr>envParams :=
                      Some (m(propertyName \<mapsto>
                        fallback etcdVal (env_read (env s1 propertyName)) dflt strDflt))\<rparr>;
               s3 = (if watchKeys (driverConfigs cfg)
                     then watchForChanges key propertyName s2 else s2)
           in if \<not> truthy etcdVal \<and> genKeys (driverConfigs cfg) then
                (if overrideNotInScope (driverConfigs cfg) \<or> isInScope key
                 then client_put key (env s3 propertyName) s3
                 else (None, say LogOutOfScope s3))
              else (None, s3)))"

fun initializeLoop :: "IETCDConfigurations \<Rightarrow> string list \<Rightarrow> state \<Rightarrow> exn option \<times> state" where
  "initializeLoop cfg [] s = (None, s)"
| "initializeLoop cfg (propertyName # rest) s =
     (case processProperty cfg propertyName s of
        (Some e, s') \<Rightarrow> (Some e, s')
      | (None, s') \<Rightarrow> initializeLoop cfg rest s')"

definition initializeProcess :: "state \<Rightarrow> exn option \<times> state" where
  "initializeProcess s =
     (case proccesedConfigurations s of
        None \<Rightarrow> (Some TypeError, s)
      | Some cfg \<Rightarrow> initializeLoop cfg (map fst (cfgEnvParams cfg)) s)"

text \<open>The \<^verbatim>\<open>try\<close> block of \<^verbatim>\<open>initialize\<close>; the connection options only reach the client's constructor.\<close>

definition initializeTry :: "custom_configs \<Rightarrow> state \<Rightarrow> exn option \<times> state" where
  "initializeTry userDefinedConfigs s =
     (let cfg = overrideDefaultConfigs s userDefinedConfigs;
          s1 = createClient (s\<lparr>proccesedConfigurations := Some cfg\<rparr>);
          s2 = s1\<lparr>etcdWatcher := True\<rparr>
      in if \<not> truthy (env_read (dirname (driverConfigs cfg)))
         then (Some (Thrown ''ETCD_SERVICE_NAME not found in environment variables''), s2)
         else if cfgEnvParams cfg = []
         then (Some (Thrown ''Configs arg does not contains any properties''), s2)
         else initializeProcess s2)"

definition initialize :: "custom_configs \<Rightarrow> state \<Rightarrow> outcome \<times> state" where
  "initialize userDefinedConfigs s =
     (case initializeTry userDefinedConfigs s of
        (None, s') \<Rightarrow> (Resolved, s')
      | (Some ex, s') \<Rightarrow> (Resolved, say (LogInitializeEx ex) s'))"

subsection \<open>Watch notifications\<close>

datatype event = PutEvent string string | DeleteEvent string

fun event_key :: "event \<Rightarrow> string" where
  "event_key (PutEvent k v) = k"
| "event_key (DeleteEvent k) = k"

text \<open>The two listeners that \<^verbatim>\<open>watchForChanges\<close> installs on a watcher.\<close>

definition on_put :: "string \<Rightarrow> string \<Rightarrow> string \<Rightarrow> state \<Rightarrow> state" where
  "on_put key propertyName v s = snd (updateEnv propertyName (Str v) (say (LogUpdating key v) s))"

definition on_delete :: "string \<Rightarrow> string \<Rightarrow> state \<Rightarrow> state" where
  "on_delete key propertyName s =
     (let s1 = say (LogDeleting propertyName) s;
          s2 = (case envParams s1 of
                  None \<Rightarrow> s1
                | Some m \<Rightarrow> s1\<lparr>envParams := Some (m(propertyName := None))\<rparr>)
      in case proccesedConfigurations s2 of
           None \<Rightarrow> s2
         | Some cfg \<Rightarrow>
             (let s3 = (if overrideSysObj (driverConfigs cfg)
                        then s2\<lparr>env := (env s2)(propertyName := None)\<rparr> else s2)
              in s3\<lparr>watchers := remove1 (key, propertyName) (watchers s3)\<rparr>))"

text \<open>A notification reaches every subscribed watcher of its key, in the order of subscription.\<close>

definition deliver :: "event \<Rightarrow> string \<times> string \<Rightarrow> state \<Rightarrow> state" where
  "deliver ev w s =
     (if fst w \<noteq> event_key ev then s
      else case ev of
             PutEvent k v \<Rightarrow> on_put (fst w) (snd w) v s
           | DeleteEvent k \<Rightarrow> on_delete (fst w) (snd w) s)"

definition notify :: "event \<Rightarrow> state \<Rightarrow> state" where
  "notify ev s = fold (deliver ev) (watchers s) s"

subsection \<open>A new driver\<close>

text \<open>
  The field initialisers of the class: no client, no watch builder, \<^verbatim>\<open>envParams = null\<close>,
  and \<^verbatim>\<open>process.env.ETCD_SERVICE_NAME\<close> as the default directory. The driver runs in a
  process with environment \<open>e\<close> against a reachable etcd server that holds \<open>k\<close>.
\<close>

definition EtcdDriver :: "(string \<rightharpoonup> string) \<Rightarrow> (string \<rightharpoonup> string) \<Rightarrow> state" where
  "EtcdDriver e k =
     \<lparr>client = False, proccesedConfigurations = None, etcdWatcher = False, envParams = None,
      defaultDirname = e ''ETCD_SERVICE_NAME'', env = e, kvs = k,
      get_rejects = (\<lambda>key. False), put_rejects = (\<lambda>key. False),
      put_calls = [], watchers = [], console = []\<rparr>"

subsection \<open>Reachable states\<close>

text \<open>
  The states a driver can be in: a new driver, then calls of \<^verbatim>\<open>initialize\<close> and watch
  notifications, while the process environment and the server change on their own.
\<close>

inductive reachable :: "state \<Rightarrow> bool" where
  new: "reachable (EtcdDriver e k)"
| call: "reachable s \<Longrightarrow> reachable (snd (initialize u s))"
| notification: "reachable s \<Longrightarrow> reachable (notify ev s)"
| world: "reachable s \<Longrightarrow> reachable (s\<lparr>env := e, kvs := k, get_rejects := g, put_rejects := r\<rparr>)"

subsection \<open>The fallback chain as the specification words it\<close>


subsection \<open>Agreement of the two copies\<close>

text \<open>
  The entry of \<^verbatim>\<open>process.env\<close> for a name is set and \<^verbatim>\<open>envParams\<close> holds the same string
  for it.
\<close>

definition agree :: "state \<Rightarrow> string \<Rightarrow> bool" where
  "agree s p = (env s p \<noteq> None \<and> resolved s p = map_option Str (env s p))"

subsection \<open>Notions for running \<^verbatim>\<open>initialize\<close> again\<close>




subsection \<open>Configurations used as examples\<close>

text \<open>Driver configurations in which only the directory name is given.\<close>

definition plainDriverConfigs :: "string \<Rightarrow> IETCDDriverConfigs" where
  "plainDriverConfigs d =
     \<lparr>dirname = Some d, genKeys = False, overrideSysObj = False, watchKeys = False,
      overrideNotInScope = False, genEnvDirectories = False\<rparr>"

definition plainCustomConfigs :: "string \<Rightarrow> custom_driverConfigs" where
  "plainCustomConfigs d =
     \<lparr>c_dirname = Present (Some d), c_genKeys = False, c_overrideSysObj = False,
      c_watchKeys = False, c_overrideNotInScope = False, c_genEnvDirectories = False\<rparr>"

text \<open>
  A driver after \<^verbatim>\<open>initialize\<close> with mirroring and watching on, for one parameter \<open>P\<close>
  whose key \<^verbatim>\<open>/svc/P\<close> holds \<open>R\<close>, and the configurations it has processed.
\<close>

definition watchedDriver :: state where
  "watchedDriver =
     snd (initialize
       \<lparr>c_envParams = [(''P'', Literal ''D'')],
        c_driverConfigs =
          Some ((plainCustomConfigs ''svc'')\<lparr>c_overrideSysObj := True, c_watchKeys := True\<rparr>)\<rparr>
       (EtcdDriver Map.empty [''/svc/P'' \<mapsto> ''R'']))"

definition watchedConfigs :: IETCDConfigurations where
  "watchedConfigs =
     \<lparr>cfgEnvParams = [(''P'', Literal ''D'')],
      driverConfigs = (plainDriverConfigs ''svc'')\<lparr>overrideSysObj := True, watchKeys := True\<rparr>\<rparr>"


definition sharedKeyConfigs :: custom_configs where
  "sharedKeyConfigs =
     \<lparr>c_envParams =
        [(''p'', Literal ''''),
         (''q'', Definition \<lparr>etcdPath = Some ''/svc/p'', defaultValue = Some ''D2''\<rparr>)],
      c_driverConfigs =
        Some ((plainCustomConfigs ''svc'')\<lparr>c_genKeys := True, c_overrideSysObj := True\<rparr>)\<rparr>"

definition nodeEnvConfigs :: custom_configs where
  "nodeEnvConfigs =
     \<lparr>c_envParams = [(''X'', Literal ''x''), (''NODE_ENV'', Literal ''prod'')],
      c_driverConfigs =
        Some ((plainCustomConfigs ''svc'')
          \<lparr>c_genKeys := True, c_overrideSysObj := True, c_genEnvDirectories := True\<rparr>)\<rparr>"

section \<open>Basic facts\<close>

lemmas model_defs = processProperty_def etcdEntryName_def generatedEtcdPath_def
  getEnvironemntDir_def getPropertySetting_def settingDefault_def strDefaultVal_def
  fallback_def js_or_def env_read_def get_string_def resolved_def say_def
  watchForChanges_def client_put_def isInScope_def EtcdDriver_def plainDriverConfigs_def
  plainCustomConfigs_def Let_def

lemmas initialize_defs = initialize_def initializeTry_def initializeProcess_def
  overrideDefaultConfigs_def createClient_def


text \<open>
  Line 181 reads \<^verbatim>\<open>process.env[propertyName]\<close> after line 176 has written it: the value
  it finds there is the one line 176 computed, as a string.
\<close>

lemma fallback_mirrored:
  "fallback a (Str (js_String (fallback a b c d))) c d = Str (js_String (fallback a b c d))"
  by (cases a; cases b; cases c; cases d) (auto simp: fallback_def js_or_def)



lemma resolved_processProperty:
  assumes "\<not> get_rejects s (etcdEntryName cfg s p)"
  shows "resolved (snd (processProperty cfg p s)) p =
     Some (let E = fallback (get_string (kvs s (etcdEntryName cfg s p))) (env_read (env s p))
                     (settingDefault (getPropertySetting cfg p))
                     (strDefaultVal (map_of (cfgEnvParams cfg) p))
           in if overrideSysObj (driverConfigs cfg) then Str (js_String E) else E)"
  using assms
  by (simp add: processProperty_def Let_def resolved_def say_def watchForChanges_def
      client_put_def env_read_def fallback_mirrored split: option.splits)

lemma env_processProperty:
  assumes "\<not> get_rejects s (etcdEntryName cfg s p)"
  shows "env (snd (processProperty cfg p s)) =
     (if overrideSysObj (driverConfigs cfg)
      then (env s)(p \<mapsto> js_String (fallback (get_string (kvs s (etcdEntryName cfg s p)))
                     (env_read (env s p))
                     (settingDefault (getPropertySetting cfg p))
                     (strDefaultVal (map_of (cfgEnvParams cfg) p))))
      else env s)"
  using assms
  by (simp add: processProperty_def Let_def say_def watchForChanges_def
      client_put_def split: option.splits)

section \<open>The scope guard\<close>

lemma split_on_not_Nil: "split_on c xs \<noteq> []"
  by (induction xs) (auto simp: Let_def)

lemma split_on_no_sep: "c \<notin> set a \<Longrightarrow> split_on c a = [a]"
  by (induction a) (auto simp: Let_def)

lemma split_on_append_sep: "c \<notin> set a \<Longrightarrow> split_on c (a @ c # b) = a # split_on c b"
  by (induction a) (auto simp: Let_def)

text \<open>
  C2, as the code has it. Splitting \<^verbatim>\<open>/{dir}/{param}\<close> gives three segments, the empty one
  before the first separator included, so such a path is in scope exactly when the
  parameter segment is not empty; a path \<^verbatim>\<open>/{dir}/{subdir}/...\<close> with three or more
  segments after the leading separator is in scope, and \<^verbatim>\<open>/{dir}\<close> alone is not.
\<close>

theorem isInScope_segments:
  assumes "CHR ''/'' \<notin> set dir" and "CHR ''/'' \<notin> set param" and "CHR ''/'' \<notin> set sub"
  shows "isInScope (''/'' @ dir @ ''/'' @ param) = (param \<noteq> [])
       \<and> isInScope (''/'' @ dir @ ''/'' @ sub @ ''/'' @ rest)
       \<and> \<not> isInScope (''/'' @ dir)"
proof -
  have two: "split_on CHR ''/'' (''/'' @ dir @ ''/'' @ param) = [[], dir, param]"
    using assms by (simp add: split_on_append_sep split_on_no_sep Let_def)
  have more: "split_on CHR ''/'' (''/'' @ dir @ ''/'' @ sub @ ''/'' @ rest)
            = [] # dir # sub # split_on CHR ''/'' rest"
    using assms by (simp add: split_on_append_sep Let_def)
  have one: "split_on CHR ''/'' (''/'' @ dir) = [[], dir]"
    using assms by (simp add: split_on_no_sep Let_def)
  have tail: "length (split_on CHR ''/'' rest) > 0"
    using split_on_not_Nil [of "CHR ''/''" rest] by simp
  show ?thesis
    unfolding isInScope_def two more one using tail by (simp add: Let_def)
qed

theorem isInScope_segments_witness:
  "isInScope ''/svc/param'' \<and> isInScope ''/svc/prod/param'' \<and> \<not> isInScope ''/svc''"
  using isInScope_segments [of "''svc''" "''param''" "''prod''" "''param''"] by simp

text \<open>
  C2 as the specification states it asks for \<^verbatim>\<open>isInScope("/svc/param")\<close> to be false; the
  code answers true.
\<close>

theorem isInScope_two_segments_counterexample: "\<not> (isInScope ''/svc/param'' = False)"
  by (simp add: isInScope_def Let_def)

section \<open>The fallback chain\<close>



section \<open>Key paths\<close>

text \<open>
  C6. With directory \<open>dir\<close>, the generated path is \<^verbatim>\<open>/dir/env/name\<close> when
  \<^verbatim>\<open>genEnvDirectories\<close> is set and \<^verbatim>\<open>NODE_ENV\<close> holds a non-empty name \<open>env\<close>, and
  \<^verbatim>\<open>/dir/name\<close> otherwise; the key that is read, watched and written is the \<^verbatim>\<open>etcdPath\<close> of the
  entry's property definition when that is a non-empty string, and the generated path
  in every other case.
\<close>

theorem key_path_derivation:
  assumes "dirname (driverConfigs cfg) = Some dir"
  shows "generatedEtcdPath cfg s p =
           (case env s ''NODE_ENV'' of
              None \<Rightarrow> ''/'' @ dir @ ''/'' @ p
            | Some e \<Rightarrow>
                if genEnvDirectories (driverConfigs cfg) \<and> e \<noteq> []
                then ''/'' @ dir @ ''/'' @ e @ ''/'' @ p
                else ''/'' @ dir @ ''/'' @ p)
       \<and> etcdEntryName cfg s p =
           (case map_of (cfgEnvParams cfg) p of
              Some (Definition d) \<Rightarrow>
                (case etcdPath d of
                   None \<Rightarrow> generatedEtcdPath cfg s p
                 | Some x \<Rightarrow> if x \<noteq> [] then x else generatedEtcdPath cfg s p)
            | _ \<Rightarrow> generatedEtcdPath cfg s p)"
proof -
  have gen: "generatedEtcdPath cfg s p =
           (case env s ''NODE_ENV'' of
              None \<Rightarrow> ''/'' @ dir @ ''/'' @ p
            | Some e \<Rightarrow>
                if genEnvDirectories (driverConfigs cfg) \<and> e \<noteq> []
                then ''/'' @ dir @ ''/'' @ e @ ''/'' @ p
                else ''/'' @ dir @ ''/'' @ p)"
    using assms
    by (auto simp: generatedEtcdPath_def getEnvironemntDir_def env_read_def split: option.splits)
  have name: "etcdEntryName cfg s p =
           (case map_of (cfgEnvParams cfg) p of
              Some (Definition d) \<Rightarrow>
                (case etcdPath d of
                   None \<Rightarrow> generatedEtcdPath cfg s p
                 | Some x \<Rightarrow> if x \<noteq> [] then x else generatedEtcdPath cfg s p)
            | _ \<Rightarrow> generatedEtcdPath cfg s p)"
    by (auto simp: etcdEntryName_def getPropertySetting_def env_read_def js_or_def
        split: option.splits manifest_value.splits)
  from gen name show ?thesis by (rule conjI)
qed

text \<open>
  The directory \<open>svc\<close> and the name \<open>MONGO_URI\<close> in a process with \<^verbatim>\<open>NODE_ENV=prod\<close>:
  without environment directories, with them, and with an explicit path.
\<close>

theorem key_path_derivation_witness:
  "etcdEntryName
      \<lparr>cfgEnvParams = [(''MONGO_URI'', Literal ''x'')], driverConfigs = plainDriverConfigs ''svc''\<rparr>
      (EtcdDriver [''NODE_ENV'' \<mapsto> ''prod''] Map.empty) ''MONGO_URI'' = ''/svc/MONGO_URI''
   \<and> etcdEntryName
      \<lparr>cfgEnvParams = [(''MONGO_URI'', Literal ''x'')],
       driverConfigs = (plainDriverConfigs ''svc'')\<lparr>genEnvDirectories := True\<rparr>\<rparr>
      (EtcdDriver [''NODE_ENV'' \<mapsto> ''prod''] Map.empty) ''MONGO_URI'' = ''/svc/prod/MONGO_URI''
   \<and> etcdEntryName
      \<lparr>cfgEnvParams = [(''MONGO_URI'',
          Definition \<lparr>etcdPath = Some ''mongodb_uri'', defaultValue = None\<rparr>)],
       driverConfigs = (plainDriverConfigs ''svc'')\<lparr>genEnvDirectories := True\<rparr>\<rparr>
      (EtcdDriver [''NODE_ENV'' \<mapsto> ''prod''] Map.empty) ''MONGO_URI'' = ''mongodb_uri''"
  using
    key_path_derivation [of "\<lparr>cfgEnvParams = [(''MONGO_URI'', Literal ''x'')],
        driverConfigs = plainDriverConfigs ''svc''\<rparr>" "''svc''"
        "EtcdDriver [''NODE_ENV'' \<mapsto> ''prod''] Map.empty" "''MONGO_URI''"]
    key_path_derivation [of "\<lparr>cfgEnvParams = [(''MONGO_URI'', Literal ''x'')],
        driverConfigs = (plainDriverConfigs ''svc'')\<lparr>genEnvDirectories := True\<rparr>\<rparr>" "''svc''"
        "EtcdDriver [''NODE_ENV'' \<mapsto> ''prod''] Map.empty" "''MONGO_URI''"]
    key_path_derivation [of "\<lparr>cfgEnvParams = [(''MONGO_URI'',
          Definition \<lparr>etcdPath = Some ''mongodb_uri'', defaultValue = None\<rparr>)],
        driverConfigs = (plainDriverConfigs ''svc'')\<lparr>genEnvDirectories := True\<rparr>\<rparr>" "''svc''"
        "EtcdDriver [''NODE_ENV'' \<mapsto> ''prod''] Map.empty" "''MONGO_URI''"]
  by (simp add: plainDriverConfigs_def EtcdDriver_def)

section \<open>Writes out of scope\<close>





section \<open>Property definitions as defaults\<close>




section \<open>Errors of initialize\<close>

lemma initialize_Resolved: "fst (initialize u s) = Resolved"
  by (simp add: initialize_def split: prod.splits option.splits)

lemma initialize_caught:
  "initializeTry u s = (Some e, t) \<Longrightarrow> snd (initialize u s) = say (LogInitializeEx e) t"
  by (simp add: initialize_def)

lemma initializeTry_no_dirname:
  assumes "\<not> truthy (env_read (dirname (driverConfigs (overrideDefaultConfigs s u))))"
  shows "initializeTry u s =
     (Some (Thrown ''ETCD_SERVICE_NAME not found in environment variables''),
      (createClient (s\<lparr>proccesedConfigurations := Some (overrideDefaultConfigs s u)\<rparr>))
        \<lparr>etcdWatcher := True\<rparr>)"
  using assms by (simp add: initializeTry_def Let_def)

lemma initializeTry_no_properties:
  assumes "truthy (env_read (dirname (driverConfigs (overrideDefaultConfigs s u))))"
    and "c_envParams u = []"
  shows "initializeTry u s =
     (Some (Thrown ''Configs arg does not contains any properties''),
      (createClient (s\<lparr>proccesedConfigurations := Some (overrideDefaultConfigs s u)\<rparr>))
        \<lparr>etcdWatcher := True\<rparr>)"
  using assms by (simp add: initializeTry_def Let_def overrideDefaultConfigs_def)

text \<open>
  C3, as the code has it. The whole body of \<^verbatim>\<open>initialize\<close> is inside its \<^verbatim>\<open>try\<close>, so the
  promise it returns always resolves. With a missing (or empty) directory name, and with
  an empty manifest, the error is thrown and its message logged by the \<^verbatim>\<open>catch\<close>; no
  entry is processed: \<^verbatim>\<open>envParams\<close>, \<^verbatim>\<open>process.env\<close>, the server's content, the put calls
  and the watchers are as before. Any other exception of the body is logged in the same
  way.
\<close>

theorem initialize_catches_every_error:
  "fst (initialize u s) = Resolved
   \<and> (\<not> truthy (env_read (dirname (driverConfigs (overrideDefaultConfigs s u)))) \<longrightarrow>
        last (console (snd (initialize u s))) =
          LogInitializeEx (Thrown ''ETCD_SERVICE_NAME not found in environment variables'')
        \<and> envParams (snd (initialize u s)) = envParams s
        \<and> env (snd (initialize u s)) = env s
        \<and> kvs (snd (initialize u s)) = kvs s
        \<and> put_calls (snd (initialize u s)) = put_calls s
        \<and> watchers (snd (initialize u s)) = watchers s)
   \<and> (truthy (env_read (dirname (driverConfigs (overrideDefaultConfigs s u))))
        \<and> c_envParams u = [] \<longrightarrow>
        last (console (snd (initialize u s))) =
          LogInitializeEx (Thrown ''Configs arg does not contains any properties'')
        \<and> envParams (snd (initialize u s)) = envParams s
        \<and> env (snd (initialize u s)) = env s
        \<and> kvs (snd (initialize u s)) = kvs s
        \<and> put_calls (snd (initialize u s)) = put_calls s
        \<and> watchers (snd (initialize u s)) = watchers s)
   \<and> (fst (initializeTry u s) = Some e \<longrightarrow>
        last (console (snd (initialize u s))) = LogInitializeEx e)"
proof -
  have a: "fst (initialize u s) = Resolved"
    by (rule initialize_Resolved)
  have b: "last (console (snd (initialize u s))) =
          LogInitializeEx (Thrown ''ETCD_SERVICE_NAME not found in environment variables'')
        \<and> envParams (snd (initialize u s)) = envParams s
        \<and> env (snd (initialize u s)) = env s
        \<and> kvs (snd (initialize u s)) = kvs s
        \<and> put_calls (snd (initialize u s)) = put_calls s
        \<and> watchers (snd (initialize u s)) = watchers s"
    if "\<not> truthy (env_read (dirname (driverConfigs (overrideDefaultConfigs s u))))"
    by (simp add: initialize_caught [OF initializeTry_no_dirname [OF that]] say_def createClient_def)
  have c: "last (console (snd (initialize u s))) =
          LogInitializeEx (Thrown ''Configs arg does not contains any properties'')
        \<and> envParams (snd (initialize u s)) = envParams s
        \<and> env (snd (initialize u s)) = env s
        \<and> kvs (snd (initialize u s)) = kvs s
        \<and> put_calls (snd (initialize u s)) = put_calls s
        \<and> watchers (snd (initialize u s)) = watchers s"
    if "truthy (env_read (dirname (driverConfigs (overrideDefaultConfigs s u))))"
      and "c_envParams u = []"
    by (simp add: initialize_caught [OF initializeTry_no_properties [OF that]] say_def createClient_def)
  have d: "last (console (snd (initialize u s))) = LogInitializeEx e"
    if "fst (initializeTry u s) = Some e"
  proof -
    from that have "initializeTry u s = (Some e, snd (initializeTry u s))"
      by (cases "initializeTry u s") simp
    then show ?thesis
      by (simp add: initialize_caught say_def)
  qed
  from a b c d show ?thesis by blast
qed

text \<open>
  No directory name (no \<^verbatim>\<open>driverConfigs\<close> and \<^verbatim>\<open>ETCD_SERVICE_NAME\<close> unset), an empty
  manifest, and a server whose gets reject.
\<close>

theorem initialize_catches_every_error_witness:
  "fst (initialize
      \<lparr>c_envParams = [(''P'', Literal ''D'')], c_driverConfigs = None\<rparr>
      (EtcdDriver Map.empty Map.empty)) = Resolved
   \<and> last (console (snd (initialize
      \<lparr>c_envParams = [(''P'', Literal ''D'')], c_driverConfigs = None\<rparr>
      (EtcdDriver Map.empty Map.empty)))) =
        LogInitializeEx (Thrown ''ETCD_SERVICE_NAME not found in environment variables'')
   \<and> envParams (snd (initialize
      \<lparr>c_envParams = [(''P'', Literal ''D'')], c_driverConfigs = None\<rparr>
      (EtcdDriver Map.empty Map.empty))) = None
   \<and> last (console (snd (initialize
      \<lparr>c_envParams = [], c_driverConfigs = Some (plainCustomConfigs ''svc'')\<rparr>
      (EtcdDriver Map.empty Map.empty)))) =
        LogInitializeEx (Thrown ''Configs arg does not contains any properties'')
   \<and> last (console (snd (initialize
      \<lparr>c_envParams = [(''P'', Literal ''D'')], c_driverConfigs = Some (plainCustomConfigs ''svc'')\<rparr>
      ((EtcdDriver Map.empty Map.empty)\<lparr>get_rejects := \<lambda>key. True\<rparr>)))) =
        LogInitializeEx RemoteError"
  using
    initialize_catches_every_error [of "\<lparr>c_envParams = [(''P'', Literal ''D'')], c_driverConfigs = None\<rparr>"
      "EtcdDriver Map.empty Map.empty" RemoteError]
    initialize_catches_every_error [of "\<lparr>c_envParams = [], c_driverConfigs = Some (plainCustomConfigs ''svc'')\<rparr>"
      "EtcdDriver Map.empty Map.empty" RemoteError]
    initialize_catches_every_error [of "\<lparr>c_envParams = [(''P'', Literal ''D'')],
        c_driverConfigs = Some (plainCustomConfigs ''svc'')\<rparr>"
      "(EtcdDriver Map.empty Map.empty)\<lparr>get_rejects := \<lambda>key. True\<rparr>" RemoteError]
  by (simp add: initializeTry_def initializeProcess_def overrideDefaultConfigs_def
      createClient_def model_defs)

text \<open>
  C3 as the specification states it asks for the call to fail for its caller; with the
  directory name missing and with the manifest empty, the call resolves.
\<close>

theorem initialize_missing_dirname_counterexample:
  "dirname (driverConfigs (overrideDefaultConfigs (EtcdDriver Map.empty Map.empty)
      \<lparr>c_envParams = [(''P'', Literal ''D'')], c_driverConfigs = None\<rparr>)) = None
   \<and> fst (initialize
      \<lparr>c_envParams = [(''P'', Literal ''D'')], c_driverConfigs = None\<rparr>
      (EtcdDriver Map.empty Map.empty)) = Resolved
   \<and> fst (initialize
      \<lparr>c_envParams = [], c_driverConfigs = Some (plainCustomConfigs ''svc'')\<rparr>
      (EtcdDriver Map.empty Map.empty)) = Resolved"
  by (simp add: initialize_defs model_defs)

section \<open>Watch notifications\<close>

lemma on_put_effect:
  assumes "proccesedConfigurations s = Some cfg" and "envParams s = Some m"
  shows "proccesedConfigurations (on_put k p v s) = Some cfg"
    and "envParams (on_put k p v s) = Some (m(p \<mapsto> Str v))"
    and "env (on_put k p v s) =
           (if overrideSysObj (driverConfigs cfg) then (env s)(p \<mapsto> v) else env s)"
    and "watchers (on_put k p v s) = watchers s"
    and "kvs (on_put k p v s) = kvs s"
    and "put_calls (on_put k p v s) = put_calls s"
    and "resolved (on_put k p v s) q = (if q = p then Some (Str v) else resolved s q)"
  using assms by (simp_all add: on_put_def updateEnv_def say_def Let_def resolved_def)

lemma on_delete_effect:
  assumes "proccesedConfigurations s = Some cfg"
  shows "proccesedConfigurations (on_delete k p s) = Some cfg"
    and "envParams (on_delete k p s) = map_option (\<lambda>m. m(p := None)) (envParams s)"
    and "env (on_delete k p s) =
           (if overrideSysObj (driverConfigs cfg) then (env s)(p := None) else env s)"
    and "watchers (on_delete k p s) = remove1 (k, p) (watchers s)"
    and "kvs (on_delete k p s) = kvs s"
    and "put_calls (on_delete k p s) = put_calls s"
    and "resolved (on_delete k p s) q = (if q = p then None else resolved s q)"
  using assms
  by (simp_all add: on_delete_def say_def Let_def resolved_def split: option.splits)

lemma fold_deliver_put:
  assumes "proccesedConfigurations s = Some cfg" and "envParams s \<noteq> None"
  shows "proccesedConfigurations (fold (deliver (PutEvent k v)) ws s) = Some cfg
       \<and> envParams (fold (deliver (PutEvent k v)) ws s) \<noteq> None
       \<and> watchers (fold (deliver (PutEvent k v)) ws s) = watchers s
       \<and> kvs (fold (deliver (PutEvent k v)) ws s) = kvs s
       \<and> put_calls (fold (deliver (PutEvent k v)) ws s) = put_calls s
       \<and> (\<forall>p. resolved (fold (deliver (PutEvent k v)) ws s) p =
               (if (k, p) \<in> set ws then Some (Str v) else resolved s p))
       \<and> (\<forall>p. env (fold (deliver (PutEvent k v)) ws s) p =
               (if overrideSysObj (driverConfigs cfg) \<and> (k, p) \<in> set ws then Some v else env s p))"
  using assms
proof (induction ws arbitrary: s)
  case Nil
  then show ?case by simp
next
  case (Cons w ws)
  obtain k' p' where w: "w = (k', p')" by (cases w)
  show ?case
  proof (cases "k' = k")
    case False
    then have "deliver (PutEvent k v) w s = s"
      by (simp add: deliver_def w)
    then show ?thesis
      using Cons.IH [OF Cons.prems] False by (auto simp: w)
  next
    case True
    from Cons.prems obtain m where m: "envParams s = Some m" by auto
    let ?t = "on_put k p' v s"
    have t: "deliver (PutEvent k v) (k, p') s = ?t"
      by (simp add: deliver_def)
    note eff = on_put_effect [OF Cons.prems(1) m, of k p' v]
    have "envParams ?t \<noteq> None"
      by (simp add: eff)
    from Cons.IH [OF eff(1) this] show ?thesis
      by (auto simp: t w True eff)
  qed
qed

lemma fold_deliver_delete:
  assumes "proccesedConfigurations s = Some cfg"
  shows "proccesedConfigurations (fold (deliver (DeleteEvent k)) ws s) = Some cfg
       \<and> kvs (fold (deliver (DeleteEvent k)) ws s) = kvs s
       \<and> put_calls (fold (deliver (DeleteEvent k)) ws s) = put_calls s
       \<and> (\<forall>p. resolved (fold (deliver (DeleteEvent k)) ws s) p =
               (if (k, p) \<in> set ws then None else resolved s p))
       \<and> (\<forall>p. env (fold (deliver (DeleteEvent k)) ws s) p =
               (if overrideSysObj (driverConfigs cfg) \<and> (k, p) \<in> set ws then None else env s p))
       \<and> watchers (fold (deliver (DeleteEvent k)) ws s) =
           fold (\<lambda>w W. if fst w = k then remove1 w W else W) ws (watchers s)"
  using assms
proof (induction ws arbitrary: s)
  case Nil
  then show ?case by simp
next
  case (Cons w ws)
  obtain k' p' where w: "w = (k', p')" by (cases w)
  show ?case
  proof (cases "k' = k")
    case False
    then have "deliver (DeleteEvent k) w s = s"
      by (simp add: deliver_def w)
    then show ?thesis
      using Cons.IH [OF Cons.prems] False by (auto simp: w)
  next
    case True
    let ?t = "on_delete k p' s"
    have t: "deliver (DeleteEvent k) (k, p') s = ?t"
      by (simp add: deliver_def)
    note eff = on_delete_effect [OF Cons.prems(1), of k p']
    from Cons.IH [OF eff(1)] show ?thesis
      by (auto simp: t w True eff)
  qed
qed

lemma fold_remove1_all:
  assumes "\<forall>w \<in> set pre. \<not> P w"
  shows "fold (\<lambda>w W. if P w then remove1 w W else W) ws (pre @ ws) = pre @ filter (\<lambda>w. \<not> P w) ws"
  using assms
proof (induction ws arbitrary: pre)
  case Nil
  then show ?case by simp
next
  case (Cons w ws)
  show ?case
  proof (cases "P w")
    case True
    with Cons.prems have "w \<notin> set pre" by auto
    then have "remove1 w (pre @ w # ws) = pre @ ws"
      by (simp add: remove1_append)
    with Cons.IH [OF Cons.prems] True show ?thesis by simp
  next
    case False
    with Cons.prems have "\<forall>x \<in> set (pre @ [w]). \<not> P x" by auto
    from Cons.IH [OF this] False show ?thesis by simp
  qed
qed

lemma fold_deliver_no_watcher:
  "\<forall>w \<in> set ws. fst w \<noteq> event_key ev \<Longrightarrow> fold (deliver ev) ws s = s"
  by (induction ws arbitrary: s) (auto simp: deliver_def)

lemma watchers_notify_delete:
  assumes "proccesedConfigurations s = Some cfg"
  shows "watchers (notify (DeleteEvent k) s) = filter (\<lambda>w. fst w \<noteq> k) (watchers s)"
  using fold_deliver_delete [OF assms, of k "watchers s"]
    fold_remove1_all [of "[]" "\<lambda>w. fst w = k" "watchers s"]
  by (simp add: notify_def)

section \<open>What processing an entry leaves alone\<close>

lemma processProperty_frame:
  shows "get_rejects (snd (processProperty cfg q s)) = get_rejects s"
    and "put_rejects (snd (processProperty cfg q s)) = put_rejects s"
    and "proccesedConfigurations (snd (processProperty cfg q s)) = proccesedConfigurations s"
    and "defaultDirname (snd (processProperty cfg q s)) = defaultDirname s"
    and "client (snd (processProperty cfg q s)) = client s"
    and "etcdWatcher (snd (processProperty cfg q s)) = etcdWatcher s"
  by (simp_all add: processProperty_def Let_def say_def watchForChanges_def client_put_def
      split: option.splits)

lemma processProperty_other_name:
  assumes "p \<noteq> q"
  shows "env (snd (processProperty cfg q s)) p = env s p"
    and "resolved (snd (processProperty cfg q s)) p = resolved s p"
  using assms
  by (simp_all add: processProperty_def Let_def say_def watchForChanges_def client_put_def
      resolved_def split: option.splits)


lemma processProperty_envParams_set:
  assumes "\<not> get_rejects s (etcdEntryName cfg s q)"
  shows "envParams (snd (processProperty cfg q s)) \<noteq> None"
  using assms
  by (simp add: processProperty_def Let_def say_def watchForChanges_def client_put_def
      split: option.splits)

lemma processProperty_rejected_get:
  assumes "get_rejects s (etcdEntryName cfg s q)"
  shows "processProperty cfg q s = (Some RemoteError, s)"
  using assms by (simp add: processProperty_def Let_def)

lemma processProperty_no_exception:
  assumes "fst (processProperty cfg q s) = None"
  shows "\<not> get_rejects s (etcdEntryName cfg s q)"
  using assms by (auto simp: processProperty_rejected_get)

lemma processProperty_agree:
  assumes "overrideSysObj (driverConfigs cfg)"
    and "\<not> get_rejects s (etcdEntryName cfg s q)"
  shows "agree (snd (processProperty cfg q s)) q"
  using assms(1)
  by (simp add: agree_def env_processProperty [OF assms(2)]
      resolved_processProperty [OF assms(2)] Let_def)

lemma processProperty_agree_kept:
  assumes "agree s p" and "overrideSysObj (driverConfigs cfg)"
  shows "agree (snd (processProperty cfg q s)) p"
proof (cases "p = q")
  case False
  then show ?thesis
    using assms(1) by (simp add: agree_def processProperty_other_name)
next
  case True
  show ?thesis
  proof (cases "get_rejects s (etcdEntryName cfg s q)")
    case True
    then show ?thesis
      using assms(1) by (simp add: processProperty_rejected_get)
  next
    case False
    then show ?thesis
      using assms(2) \<open>p = q\<close> by (simp add: processProperty_agree)
  qed
qed

lemma initializeLoop_agree:
  assumes "overrideSysObj (driverConfigs cfg)"
  shows "(\<forall>p. agree s p \<longrightarrow> agree (snd (initializeLoop cfg ps s)) p)
       \<and> (fst (initializeLoop cfg ps s) = None \<longrightarrow>
            (\<forall>p \<in> set ps. agree (snd (initializeLoop cfg ps s)) p))"
proof (induction ps arbitrary: s)
  case Nil
  then show ?case by simp
next
  case (Cons q ps)
  obtain r t where step: "processProperty cfg q s = (r, t)"
    by (cases "processProperty cfg q s")
  have kept: "agree s p \<Longrightarrow> agree t p" for p
    using processProperty_agree_kept [OF _ assms, of s p q] step by simp
  show ?case
  proof (cases r)
    case (Some e)
    then show ?thesis
      using step kept by simp
  next
    case None
    then have "\<not> get_rejects s (etcdEntryName cfg s q)"
      using processProperty_no_exception [of cfg q s] step by simp
    then have "agree t q"
      using processProperty_agree [OF assms, of s q] step by simp
    then show ?thesis
      using step None kept Cons.IH [of t] by auto
  qed
qed

lemma watchedDriver_fields:
  "watchers watchedDriver = [(''/svc/P'', ''P'')]"
  "proccesedConfigurations watchedDriver = Some watchedConfigs"
  "envParams watchedDriver = Some [''P'' \<mapsto> Str ''R'']"
  "env watchedDriver = [''P'' \<mapsto> ''R'']"
  "kvs watchedDriver = [''/svc/P'' \<mapsto> ''R'']"
  "put_calls watchedDriver = []"
  by (simp_all add: watchedDriver_def watchedConfigs_def initialize_defs model_defs)

section \<open>Watchers exist only in an initialised driver\<close>

lemma processProperty_watchers:
  "watchers (snd (processProperty cfg q s)) = watchers s
     \<or> envParams (snd (processProperty cfg q s)) \<noteq> None"
  by (cases "get_rejects s (etcdEntryName cfg s q)")
    (simp_all add: processProperty_rejected_get processProperty_envParams_set)

lemma processProperty_envParams_kept:
  "envParams s \<noteq> None \<Longrightarrow> envParams (snd (processProperty cfg q s)) \<noteq> None"
  by (cases "get_rejects s (etcdEntryName cfg s q)")
    (simp_all add: processProperty_rejected_get processProperty_envParams_set)

lemma initializeLoop_watchers:
  assumes "watchers s = [] \<or> envParams s \<noteq> None"
  shows "(watchers (snd (initializeLoop cfg ps s)) = [] \<or> envParams (snd (initializeLoop cfg ps s)) \<noteq> None)
       \<and> proccesedConfigurations (snd (initializeLoop cfg ps s)) = proccesedConfigurations s"
  using assms
proof (induction ps arbitrary: s)
  case Nil
  then show ?case by simp
next
  case (Cons q ps)
  obtain r t where step: "processProperty cfg q s = (r, t)"
    by (cases "processProperty cfg q s")
  have t: "watchers t = [] \<or> envParams t \<noteq> None"
    using processProperty_watchers [of cfg q s] processProperty_envParams_kept [of s cfg q]
      Cons.prems step by auto
  have c: "proccesedConfigurations t = proccesedConfigurations s"
    using processProperty_frame(3) [of cfg q s] step by simp
  show ?case
  proof (cases r)
    case (Some e)
    then show ?thesis using step t c by simp
  next
    case None
    then show ?thesis using step Cons.IH [OF t] c by simp
  qed
qed

lemma initialize_watchers:
  assumes "watchers s = [] \<or> envParams s \<noteq> None"
  shows "(watchers (snd (initialize u s)) = [] \<or> envParams (snd (initialize u s)) \<noteq> None)
       \<and> proccesedConfigurations (snd (initialize u s)) \<noteq> None"
proof -
  let ?cfg = "overrideDefaultConfigs s u"
  let ?sA = "(createClient (s\<lparr>proccesedConfigurations := Some ?cfg\<rparr>))\<lparr>etcdWatcher := True\<rparr>"
  have A: "watchers ?sA = [] \<or> envParams ?sA \<noteq> None"
    "proccesedConfigurations ?sA = Some ?cfg"
    using assms by (simp_all add: createClient_def say_def)
  have "(watchers (snd (initializeTry u s)) = [] \<or> envParams (snd (initializeTry u s)) \<noteq> None)
       \<and> proccesedConfigurations (snd (initializeTry u s)) \<noteq> None"
    using A initializeLoop_watchers [OF A(1), of ?cfg "map fst (cfgEnvParams ?cfg)"]
    by (simp add: initializeTry_def Let_def initializeProcess_def)
  then show ?thesis
    by (cases "initializeTry u s") (auto simp: initialize_def say_def split: option.splits)
qed

lemma notify_watchers:
  assumes "proccesedConfigurations s \<noteq> None" and "envParams s \<noteq> None"
  shows "envParams (notify ev s) \<noteq> None \<and> proccesedConfigurations (notify ev s) \<noteq> None"
proof -
  from assms obtain cfg where cfg: "proccesedConfigurations s = Some cfg" by auto
  have del: "envParams (fold (deliver (DeleteEvent k)) ws t) \<noteq> None"
    if "proccesedConfigurations t = Some cfg" and "envParams t \<noteq> None" for k ws t
    using that
  proof (induction ws arbitrary: t)
    case Nil
    then show ?case by simp
  next
    case (Cons w ws)
    have "proccesedConfigurations (deliver (DeleteEvent k) w t) = Some cfg
        \<and> envParams (deliver (DeleteEvent k) w t) \<noteq> None"
      using Cons.prems on_delete_effect(1,2) [OF Cons.prems(1), of "fst w" "snd w"]
      by (auto simp: deliver_def)
    then show ?case
      using Cons.IH by simp
  qed
  show ?thesis
  proof (cases ev)
    case (PutEvent k v)
    then show ?thesis
      using fold_deliver_put [OF cfg assms(2), of k v "watchers s"] by (simp add: notify_def)
  next
    case (DeleteEvent k)
    then show ?thesis
      using fold_deliver_delete [OF cfg, of k "watchers s"] del [OF cfg assms(2), of k "watchers s"]
      by (simp add: notify_def)
  qed
qed

lemma notify_no_watchers: "watchers s = [] \<Longrightarrow> notify ev s = s"
  by (simp add: notify_def)

text \<open>
  In every reachable state with a subscribed watcher, the configurations have been
  processed and \<^verbatim>\<open>envParams\<close> is an object: the conditions under which the notifications
  are described below.
\<close>

lemma reachable_initialised:
  assumes "reachable s" and "watchers s \<noteq> []"
  shows "proccesedConfigurations s \<noteq> None \<and> envParams s \<noteq> None"
proof -
  have "watchers s = [] \<or> (proccesedConfigurations s \<noteq> None \<and> envParams s \<noteq> None)"
    using assms(1)
  proof (induction rule: reachable.induct)
    case (new e k)
    then show ?case by (simp add: EtcdDriver_def)
  next
    case (call s u)
    then have "watchers s = [] \<or> envParams s \<noteq> None" by auto
    from initialize_watchers [OF this, of u] show ?case by auto
  next
    case (notification s ev)
    show ?case
    proof (cases "watchers s = []")
      case True
      then show ?thesis by (simp add: notify_no_watchers)
    next
      case False
      with notification.IH have "proccesedConfigurations s \<noteq> None" and "envParams s \<noteq> None"
        by auto
      from notify_watchers [OF this, of ev] show ?thesis by simp
    qed
  next
    case (world s e k g r)
    then show ?case by simp
  qed
  with assms(2) show ?thesis by simp
qed

section \<open>The watch manager\<close>

text \<open>
  C5. For a subscribed watcher of key \<open>k\<close> for the name \<open>p\<close>, in a driver that has been
  initialised (as every reachable state with a watcher is, by \<open>reachable_initialised\<close>): a
  put notification stores the new value in \<^verbatim>\<open>envParams\<close> and, with
  \<^verbatim>\<open>overrideSysObj\<close>, in \<^verbatim>\<open>process.env\<close> (which is untouched otherwise). A delete notification
  removes the entry from \<^verbatim>\<open>envParams\<close> and, with \<^verbatim>\<open>overrideSysObj\<close>, from \<^verbatim>\<open>process.env\<close>,
  and cancels the watcher; it makes no put call and leaves the server's content alone.
  Afterwards a further notification for the key changes nothing, so the entry stays
  absent.
\<close>

theorem watch_notifications:
  assumes "(k, p) \<in> set (watchers s)"
    and "proccesedConfigurations s = Some cfg"
    and "envParams s \<noteq> None"
  shows "resolved (notify (PutEvent k v) s) p = Some (Str v)
       \<and> env (notify (PutEvent k v) s) p =
           (if overrideSysObj (driverConfigs cfg) then Some v else env s p)
       \<and> resolved (notify (DeleteEvent k) s) p = None
       \<and> env (notify (DeleteEvent k) s) p =
           (if overrideSysObj (driverConfigs cfg) then None else env s p)
       \<and> (k, p) \<notin> set (watchers (notify (DeleteEvent k) s))
       \<and> kvs (notify (DeleteEvent k) s) = kvs s
       \<and> put_calls (notify (DeleteEvent k) s) = put_calls s
       \<and> notify (PutEvent k v') (notify (DeleteEvent k) s) = notify (DeleteEvent k) s
       \<and> notify (DeleteEvent k) (notify (DeleteEvent k) s) = notify (DeleteEvent k) s"
proof -
  note put = fold_deliver_put [OF assms(2,3), of k v "watchers s"]
  note del = fold_deliver_delete [OF assms(2), of k "watchers s"]
  have gone: "\<forall>w \<in> set (watchers (notify (DeleteEvent k) s)). fst w \<noteq> k"
    by (simp add: watchers_notify_delete [OF assms(2)])
  have "\<forall>w \<in> set (watchers (notify (DeleteEvent k) s)). fst w \<noteq> event_key (PutEvent k v')"
    using gone by simp
  then have terminal_put:
    "notify (PutEvent k v') (notify (DeleteEvent k) s) = notify (DeleteEvent k) s"
    unfolding notify_def [of "PutEvent k v'"] by (rule fold_deliver_no_watcher)
  have "\<forall>w \<in> set (watchers (notify (DeleteEvent k) s)). fst w \<noteq> event_key (DeleteEvent k)"
    using gone by simp
  then have terminal_delete:
    "notify (DeleteEvent k) (notify (DeleteEvent k) s) = notify (DeleteEvent k) s"
    unfolding notify_def [of "DeleteEvent k" "notify (DeleteEvent k) s"]
    by (rule fold_deliver_no_watcher)
  have cancelled: "(k, p) \<notin> set (watchers (notify (DeleteEvent k) s))"
    using gone by force
  from put del assms(1) cancelled terminal_put terminal_delete show ?thesis
    by (simp add: notify_def)
qed

text \<open>The driver \<open>watchedDriver\<close> and its watcher of \<^verbatim>\<open>/svc/P\<close>.\<close>

theorem watch_notifications_witness:
  "resolved (notify (PutEvent ''/svc/P'' ''N'') watchedDriver) ''P'' = Some (Str ''N'')
   \<and> env (notify (PutEvent ''/svc/P'' ''N'') watchedDriver) ''P'' = Some ''N''
   \<and> resolved (notify (DeleteEvent ''/svc/P'') watchedDriver) ''P'' = None
   \<and> env (notify (DeleteEvent ''/svc/P'') watchedDriver) ''P'' = None
   \<and> (''/svc/P'', ''P'') \<notin> set (watchers (notify (DeleteEvent ''/svc/P'') watchedDriver))
   \<and> resolved (notify (PutEvent ''/svc/P'' ''N'') (notify (DeleteEvent ''/svc/P'') watchedDriver)) ''P''
        = None"
  using watch_notifications [of "''/svc/P''" "''P''" watchedDriver watchedConfigs "''N''" "''N''"]
  by (simp add: watchedDriver_fields) (simp add: watchedConfigs_def)

section \<open>Mirroring\<close>

text \<open>
  C10. With \<^verbatim>\<open>overrideSysObj\<close>: after an entry has been processed (its get succeeding),
  and after a whole run of the loop that raised nothing for each of its names,
  \<^verbatim>\<open>process.env\<close> holds a string for the name and \<^verbatim>\<open>envParams\<close> holds the same string; after
  a put notification both hold the new value; after a delete notification both are
  absent.
\<close>

theorem mirrored_copies_agree:
  assumes "overrideSysObj (driverConfigs cfg)"
  shows "(\<not> get_rejects t (etcdEntryName cfg t q) \<longrightarrow> agree (snd (processProperty cfg q t)) q)
       \<and> (fst (initializeLoop cfg ps t) = None \<longrightarrow>
            (\<forall>q \<in> set ps. agree (snd (initializeLoop cfg ps t)) q))
       \<and> ((k, p) \<in> set (watchers s) \<and> proccesedConfigurations s = Some cfg \<and> envParams s \<noteq> None \<longrightarrow>
            agree (notify (PutEvent k v) s) p
            \<and> env (notify (PutEvent k v) s) p = Some v
            \<and> env (notify (DeleteEvent k) s) p = None
            \<and> resolved (notify (DeleteEvent k) s) p = None)"
proof -
  have a: "agree (snd (processProperty cfg q t)) q" if "\<not> get_rejects t (etcdEntryName cfg t q)"
    using assms that by (rule processProperty_agree)
  have b: "\<forall>q \<in> set ps. agree (snd (initializeLoop cfg ps t)) q"
    if "fst (initializeLoop cfg ps t) = None"
    using initializeLoop_agree [OF assms, of t ps] that by simp
  have c: "agree (notify (PutEvent k v) s) p
            \<and> env (notify (PutEvent k v) s) p = Some v
            \<and> env (notify (DeleteEvent k) s) p = None
            \<and> resolved (notify (DeleteEvent k) s) p = None"
    if "(k, p) \<in> set (watchers s)" and "proccesedConfigurations s = Some cfg"
      and "envParams s \<noteq> None"
    using fold_deliver_put [OF that(2,3), of k v "watchers s"]
      fold_deliver_delete [OF that(2), of k "watchers s"] that(1) assms
    by (simp add: notify_def agree_def)
  from a b c show ?thesis by blast
qed

text \<open>
  Processing \<open>P\<close> in an empty environment against an empty server, and the notifications
  of \<open>watchedDriver\<close>.
\<close>

theorem mirrored_copies_agree_witness:
  "agree (snd (processProperty watchedConfigs ''P'' (EtcdDriver Map.empty Map.empty))) ''P''
   \<and> env (snd (processProperty watchedConfigs ''P'' (EtcdDriver Map.empty Map.empty))) ''P'' = Some ''D''
   \<and> agree (snd (initializeLoop watchedConfigs [''P''] (EtcdDriver Map.empty Map.empty))) ''P''
   \<and> agree (notify (PutEvent ''/svc/P'' ''N'') watchedDriver) ''P''
   \<and> env (notify (PutEvent ''/svc/P'' ''N'') watchedDriver) ''P'' = Some ''N''
   \<and> env (notify (DeleteEvent ''/svc/P'') watchedDriver) ''P'' = None
   \<and> resolved (notify (DeleteEvent ''/svc/P'') watchedDriver) ''P'' = None"
proof -
  have mirror: "overrideSysObj (driverConfigs watchedConfigs)"
    by (simp add: watchedConfigs_def)
  have get: "\<not> get_rejects (EtcdDriver Map.empty Map.empty)
      (etcdEntryName watchedConfigs (EtcdDriver Map.empty Map.empty) ''P'')"
    by (simp add: EtcdDriver_def)
  have run: "fst (initializeLoop watchedConfigs [''P''] (EtcdDriver Map.empty Map.empty)) = None"
    by (simp add: watchedConfigs_def model_defs)
  have d: "env (snd (processProperty watchedConfigs ''P'' (EtcdDriver Map.empty Map.empty))) ''P'' = Some ''D''"
    by (simp add: watchedConfigs_def model_defs)
  show ?thesis
    using mirrored_copies_agree [OF mirror, of "EtcdDriver Map.empty Map.empty" "''P''" "[''P'']"
        "''/svc/P''" "''P''" watchedDriver "''N''"] get run d
    by (simp add: watchedDriver_fields)
qed

section \<open>Running \<^verbatim>\<open>initialize\<close> again\<close>




















text \<open>
  The two side conditions are needed. When two entries share a key, the later one can
  overwrite what the earlier one wrote, and the second call resolves the earlier entry
  differently. When the manifest sets \<^verbatim>\<open>NODE_ENV\<close> and mirroring is on, the second call
  derives other keys than the first and writes them.
\<close>

lemma shared_key_resolves_differently:
  "kvs (snd (initialize sharedKeyConfigs (EtcdDriver Map.empty Map.empty))) = [''/svc/p'' \<mapsto> ''D2'']
   \<and> resolved (snd (initialize sharedKeyConfigs (EtcdDriver Map.empty Map.empty))) ''p''
       = Some (Str '''')
   \<and> resolved (snd (initialize sharedKeyConfigs
         (snd (initialize sharedKeyConfigs (EtcdDriver Map.empty Map.empty))))) ''p''
       = Some (Str ''D2'')"
  by (simp add: sharedKeyConfigs_def initialize_defs model_defs)

lemma node_env_entry_moves_keys:
  "kvs (snd (initialize nodeEnvConfigs (EtcdDriver Map.empty Map.empty)))
     = [''/svc/X'' \<mapsto> ''x'', ''/svc/NODE_ENV'' \<mapsto> ''prod'']
   \<and> put_calls (snd (initialize nodeEnvConfigs
         (snd (initialize nodeEnvConfigs (EtcdDriver Map.empty Map.empty)))))
     = put_calls (snd (initialize nodeEnvConfigs (EtcdDriver Map.empty Map.empty)))
         @ [(''/svc/prod/X'', Some ''x''), (''/svc/prod/NODE_ENV'', Some ''prod'')]"
  by (simp add: nodeEnvConfigs_def initialize_defs model_defs)

end
